theory Spec2Isabelle
  imports Main
begin

section \<open>The configuration object of ell (src/ell/configurator.py)\<close>

text \<open>
  The module holds one \<^verbatim>\<open>Config\<close> object: a registry from model names to client
  handles, a handful of flags and defaults, and a \<^verbatim>\<open>threading.local\<close> whose attribute
  \<^verbatim>\<open>stack\<close> is the calling thread's list of override registries.

  The registry and every override registry are Python dictionaries, that is mutable
  objects: \<^verbatim>\<open>register_model\<close> writes into the registry in place and
  \<^verbatim>\<open>model_registry_override\<close> builds its registry with \<^verbatim>\<open>copy\<close> and
  \<^verbatim>\<open>update\<close>. Whether a write to one dictionary shows through another reference
  is what several properties are about, so dictionaries live in an explicit object
  store: an address names a dictionary, the store maps addresses to contents, and
  \<^verbatim>\<open>copy\<close> allocates the next unused address.

  Every operation takes the calling thread as its first argument where the source
  reads \<^verbatim>\<open>self._local\<close>; an operation is one atomic step of the state.
\<close>

subsection \<open>Data\<close>

type_synonym tid = nat
type_synonym addr = nat
type_synonym 'c dict = "string \<rightharpoonup> 'c"

text \<open>\<^verbatim>\<open>Union[Store, str]\<close>, the argument of \<^verbatim>\<open>set_store\<close>, and what is kept in
  \<^verbatim>\<open>_store\<close>: the store object itself, or the \<^verbatim>\<open>SQLiteStore\<close> built from a path.\<close>

datatype 'h store_arg = Path string | Handle 'h

datatype 'h store_ref = SQLiteStore string | StoreObject 'h

datatype error =
    ValueError string
  | AttributeError string
  | IndexError string
  | TypeError string

datatype level = DEBUG | WARNING

type_synonym log_record = "level \<times> string"

text \<open>The fields of \<^verbatim>\<open>Config\<close> in the order of the class body, the private attributes
  \<^verbatim>\<open>_store\<close> and \<^verbatim>\<open>_default_openai_client\<close> without their underscore, then
  \<^verbatim>\<open>_local\<close> (per thread: \<open>None\<close> while the attribute \<^verbatim>\<open>stack\<close> is not set, the
  list with its top last otherwise), and the object store with its allocation counter.
  The lock \<^verbatim>\<open>_lock\<close> has no field: operations are atomic steps.\<close>

record ('c, 'h, 'v) config =
  registry :: addr
  verbose :: bool
  wrapped_logging :: bool
  override_wrapped_logging_width :: "int option"
  store :: "'h store_ref option"
  autocommit :: bool
  lazy_versioning :: bool
  default_lm_params :: "string \<rightharpoonup> 'v"
  default_system_prompt :: string
  default_openai_client :: "'c option"
  local :: "tid \<Rightarrow> addr list option"
  heap :: "addr \<Rightarrow> 'c dict"
  nxt :: addr

subsection \<open>Construction\<close>

text \<open>\<^verbatim>\<open>Config.__init__\<close> called with no data, on the object store \<open>h\<close> whose next unused
  address is \<open>n\<close>: every declared field and private attribute gets its declared
  default (the registry a new empty dictionary, by its \<^verbatim>\<open>default_factory\<close>), and
  \<^verbatim>\<open>_local\<close> is bound to a new \<^verbatim>\<open>threading.local()\<close>, which has no attribute for any
  thread.\<close>

definition Config_init :: "(addr \<Rightarrow> 'c dict) \<Rightarrow> addr \<Rightarrow> ('c, 'h, 'v) config" where
  "Config_init h n =
     \<lparr> registry = n,
       verbose = False,
       wrapped_logging = True,
       override_wrapped_logging_width = None,
       store = None,
       autocommit = False,
       lazy_versioning = True,
       default_lm_params = Map.empty,
       default_system_prompt = ''You are a helpful AI assistant.'',
       default_openai_client = None,
       local = (\<lambda>_. None),
       heap = h(n := Map.empty),
       nxt = Suc n \<rparr>"

text \<open>The singleton \<^verbatim>\<open>config = Config()\<close> of the module.\<close>

definition config0 :: "('c, 'h, 'v) config" where
  "config0 = Config_init (\<lambda>_. Map.empty) 0"

subsection \<open>Store and defaults\<close>

text \<open>\<^verbatim>\<open>set_store\<close> with both arguments given (a caller that leaves \<^verbatim>\<open>autocommit\<close> out
  passes the default \<^verbatim>\<open>True\<close>). A path is turned into a \<^verbatim>\<open>SQLiteStore\<close>; the flag becomes
  \<^verbatim>\<open>autocommit or self.autocommit\<close>.\<close>

definition set_store ::
  "'h store_arg \<Rightarrow> bool \<Rightarrow> ('c, 'h, 'v) config \<Rightarrow> ('c, 'h, 'v) config" where
  "set_store st autocommit_arg s =
     (let s1 = (case st of
                  Path p \<Rightarrow> s\<lparr>store := Some (SQLiteStore p)\<rparr>
                | Handle h \<Rightarrow> s\<lparr>store := Some (StoreObject h)\<rparr>)
      in s1\<lparr>autocommit := (autocommit_arg \<or> autocommit s1)\<rparr>)"

definition get_store :: "('c, 'h, 'v) config \<Rightarrow> 'h store_ref option" where
  "get_store s = store s"

definition has_store :: "('c, 'h, 'v) config \<Rightarrow> bool" where
  "has_store s \<longleftrightarrow> store s \<noteq> None"

text \<open>\<^verbatim>\<open>set_default_lm_params(self, **params)\<close> collects its keyword arguments into
  \<^verbatim>\<open>params\<close>. Keywords are strings; the one keyword the method cannot collect is
  \<^verbatim>\<open>self\<close>, which is already bound to the object: a call that passes it (as
  \<^verbatim>\<open>init\<close> does for a mapping with the key \<^verbatim>\<open>'self'\<close>) raises \<^verbatim>\<open>TypeError\<close> before the
  body runs.\<close>

definition set_default_lm_params ::
  "(string \<rightharpoonup> 'v) \<Rightarrow> ('c, 'h, 'v) config \<Rightarrow> (error + unit) \<times> ('c, 'h, 'v) config" where
  "set_default_lm_params params s =
     (if ''self'' \<in> dom params
      then (Inl (TypeError (''Config.set_default_lm_params() got multiple values for argument '' @
              CHR 0x27 # ''self'' @ [CHR 0x27])), s)
      else (Inr (), s\<lparr>default_lm_params := params\<rparr>))"

definition set_default_system_prompt ::
  "string \<Rightarrow> ('c, 'h, 'v) config \<Rightarrow> ('c, 'h, 'v) config" where
  "set_default_system_prompt prompt s = s\<lparr>default_system_prompt := prompt\<rparr>"

text \<open>\<^verbatim>\<open>set_default_client\<close> assigns \<^verbatim>\<open>self.default_client\<close>. That name is neither a
  declared field of the class nor a private attribute (the class declares
  \<^verbatim>\<open>_default_openai_client\<close>), and the model configuration does not allow extra
  fields: the assignment of a pydantic model raises \<^verbatim>\<open>ValueError\<close> for such a name
  and stores nothing.\<close>

definition set_default_client ::
  "'c \<Rightarrow> ('c, 'h, 'v) config \<Rightarrow> (error + unit) \<times> ('c, 'h, 'v) config" where
  "set_default_client client s =
     (Inl (ValueError (CHR 0x22 # ''Config'' @ CHR 0x22 # '' object has no field '' @
        CHR 0x22 # ''default_client'' @ [CHR 0x22])), s)"

subsection \<open>The registry\<close>

text \<open>\<^verbatim>\<open>self.registry[model_name] = client\<close>: a write into the registry's dictionary.\<close>

definition register_model ::
  "string \<Rightarrow> 'c \<Rightarrow> ('c, 'h, 'v) config \<Rightarrow> ('c, 'h, 'v) config" where
  "register_model model_name client s =
     s\<lparr>heap := (heap s)(registry s := (heap s (registry s))(model_name \<mapsto> client))\<rparr>"

subsection \<open>Scoped overrides\<close>

text \<open>The context manager \<^verbatim>\<open>model_registry_override\<close> up to its \<^verbatim>\<open>yield\<close>: the
  attribute \<^verbatim>\<open>stack\<close> is created when missing; the current registry is the top of the
  stack, or the global registry when the stack is empty; the new registry is a
  \<^verbatim>\<open>copy\<close> of it (a new dictionary) with \<^verbatim>\<open>update(overrides)\<close> applied, and is appended
  to the stack.\<close>

definition model_registry_override_enter ::
  "tid \<Rightarrow> 'c dict \<Rightarrow> ('c, 'h, 'v) config \<Rightarrow> ('c, 'h, 'v) config" where
  "model_registry_override_enter t overrides s =
     (let stack = (case local s t of None \<Rightarrow> [] | Some st \<Rightarrow> st);
          current_registry = (if stack \<noteq> [] then last stack else registry s);
          new_registry = nxt s;
          h1 = (heap s)(new_registry := heap s current_registry);
          h2 = h1(new_registry := h1 new_registry ++ overrides)
      in s\<lparr>local := (local s)(t \<mapsto> stack @ [new_registry]),
            heap := h2,
            nxt := Suc (nxt s)\<rparr>)"

text \<open>The \<^verbatim>\<open>finally\<close> clause, \<^verbatim>\<open>self._local.stack.pop()\<close>: an
  \<^verbatim>\<open>AttributeError\<close> when the calling thread has no attribute \<^verbatim>\<open>stack\<close> (the error
  carries the name of the missing attribute), an \<^verbatim>\<open>IndexError\<close> when its list is
  empty.\<close>

definition model_registry_override_exit ::
  "tid \<Rightarrow> ('c, 'h, 'v) config \<Rightarrow> (error + unit) \<times> ('c, 'h, 'v) config" where
  "model_registry_override_exit t s =
     (case local s t of
        None \<Rightarrow> (Inl (AttributeError ''stack''), s)
      | Some st \<Rightarrow>
          if st = [] then (Inl (IndexError ''pop from empty list''), s)
          else (Inr (), s\<lparr>local := (local s)(t \<mapsto> butlast st)\<rparr>))"

text \<open>The \<^verbatim>\<open>with\<close> statement over a body: the body runs in the state after entry and
  comes back with its result or its exception and the state it leaves; the
  \<^verbatim>\<open>finally\<close> clause runs in both cases. An exception of the clause itself takes the
  place of the body's outcome.\<close>

definition model_registry_override ::
  "tid \<Rightarrow> 'c dict \<Rightarrow> (('c, 'h, 'v) config \<Rightarrow> (error + 'a) \<times> ('c, 'h, 'v) config) \<Rightarrow>
     ('c, 'h, 'v) config \<Rightarrow> (error + 'a) \<times> ('c, 'h, 'v) config" where
  "model_registry_override t overrides body s =
     (case body (model_registry_override_enter t overrides s) of
        (r, s2) \<Rightarrow>
          (case model_registry_override_exit t s2 of
             (Inl e, s3) \<Rightarrow> (Inl e, s3)
           | (Inr _, s3) \<Rightarrow> (r, s3)))"

subsection \<open>Resolution\<close>

text \<open>\<^verbatim>\<open>Fore.LIGHTYELLOW_EX\<close> and \<^verbatim>\<open>Style.RESET_ALL\<close> of colorama: the ANSI escape
  sequences \<^verbatim>\<open>ESC [ 9 3 m\<close> and \<^verbatim>\<open>ESC [ 0 m\<close>.\<close>

definition Fore_LIGHTYELLOW_EX :: string where
  "Fore_LIGHTYELLOW_EX = CHR 0x1B # ''[93m''"

definition Style_RESET_ALL :: string where
  "Style_RESET_ALL = CHR 0x1B # ''[0m''"

definition warning_message :: "string \<Rightarrow> string" where
  "warning_message model_name =
     ''Warning: A default provider for model '' @ CHR 0x27 # model_name @ CHR 0x27 #
     '' could not be found. Falling back to default OpenAI client from environment variables.''"

text \<open>\<^verbatim>\<open>get_client_for\<close> returns the pair \<^verbatim>\<open>(client, fallback)\<close>; the second component
  of the model's result is the list of records the call hands to the logger.\<close>

definition get_client_for ::
  "tid \<Rightarrow> string \<Rightarrow> ('c, 'h, 'v) config \<Rightarrow> ('c option \<times> bool) \<times> log_record list" where
  "get_client_for t model_name s =
     (let current_registry =
            (case local s t of
               None \<Rightarrow> registry s
             | Some st \<Rightarrow> if st \<noteq> [] then last st else registry s);
          d = heap s current_registry;
          client = d model_name
      in if model_name \<notin> dom d then
           ((default_openai_client s, True),
            [if verbose s
             then (WARNING, Fore_LIGHTYELLOW_EX @ warning_message model_name @ Style_RESET_ALL)
             else (DEBUG, warning_message model_name)])
         else ((client, False), []))"

subsection \<open>Reset and bulk initialisation\<close>

text \<open>\<^verbatim>\<open>reset\<close>: \<^verbatim>\<open>self.__init__()\<close> on the same object store, then the removal of the
  calling thread's attribute \<^verbatim>\<open>stack\<close> from what is \<^verbatim>\<open>self._local\<close> at that moment.\<close>

definition reset :: "tid \<Rightarrow> ('c, 'h, 'v) config \<Rightarrow> ('c, 'h, 'v) config" where
  "reset t s =
     (let s1 = Config_init (heap s) (nxt s)
      in if local s1 t \<noteq> None then s1\<lparr>local := (local s1)(t := None)\<rparr> else s1)"

text \<open>\<^verbatim>\<open>init\<close> with its seven keyword parameters in the order of the signature. A
  parameter the call does not pass is \<open>None\<close>; \<^verbatim>\<open>verbose\<close>, \<^verbatim>\<open>autocommit\<close> and
  \<^verbatim>\<open>lazy_versioning\<close> then take their defaults \<^verbatim>\<open>False\<close>, \<^verbatim>\<open>True\<close> and \<^verbatim>\<open>True\<close>, the
  others the default \<^verbatim>\<open>None\<close> that the body tests. An exception of a setter ends the
  call there: the assignments made so far stay, the later ones are not made.\<close>

definition init ::
  "'h store_arg option \<Rightarrow> bool option \<Rightarrow> bool option \<Rightarrow> bool option \<Rightarrow>
     (string \<rightharpoonup> 'v) option \<Rightarrow> string option \<Rightarrow> 'c option \<Rightarrow>
     ('c, 'h, 'v) config \<Rightarrow> (error + unit) \<times> ('c, 'h, 'v) config" where
  "init store_arg verbose_arg autocommit_arg lazy_versioning_arg default_lm_params_arg
        default_system_prompt_arg default_openai_client_arg s =
     (let v = (case verbose_arg of None \<Rightarrow> False | Some b \<Rightarrow> b);
          a = (case autocommit_arg of None \<Rightarrow> True | Some b \<Rightarrow> b);
          l = (case lazy_versioning_arg of None \<Rightarrow> True | Some b \<Rightarrow> b);
          s1 = s\<lparr>verbose := v\<rparr>;
          s2 = s1\<lparr>lazy_versioning := l\<rparr>;
          s3 = (case store_arg of None \<Rightarrow> s2 | Some st \<Rightarrow> set_store st a s2)
      in case (case default_lm_params_arg of
                 None \<Rightarrow> (Inr (), s3)
               | Some params \<Rightarrow> set_default_lm_params params s3) of
           (Inl e, s4) \<Rightarrow> (Inl e, s4)
         | (Inr _, s4) \<Rightarrow>
             (let s5 = (case default_system_prompt_arg of
                          None \<Rightarrow> s4
                        | Some prompt \<Rightarrow> set_default_system_prompt prompt s4)
              in case default_openai_client_arg of
                   None \<Rightarrow> (Inr (), s5)
                 | Some client \<Rightarrow> set_default_client client s5))"

subsection \<open>Well-formed states\<close>

text \<open>What holds of every state the operations build: the registry and every
  dictionary on a stack are allocated, and no stack holds the registry's own
  dictionary.\<close>

definition config_inv :: "('c, 'h, 'v) config \<Rightarrow> bool" where
  "config_inv s \<longleftrightarrow>
     registry s < nxt s \<and>
     (\<forall>t st. local s t = Some st \<longrightarrow> (\<forall>a \<in> set st. a < nxt s \<and> a \<noteq> registry s))"

text \<open>The states reachable from the singleton by the operations of any threads.\<close>

inductive reachable :: "('c, 'h, 'v) config \<Rightarrow> bool" where
  start: "reachable config0"
| register: "reachable s \<Longrightarrow> reachable (register_model model_name client s)"
| enter: "reachable s \<Longrightarrow> reachable (model_registry_override_enter t overrides s)"
| leave: "reachable s \<Longrightarrow> reachable (snd (model_registry_override_exit t s))"
| reset: "reachable s \<Longrightarrow> reachable (reset t s)"
| store: "reachable s \<Longrightarrow> reachable (set_store st b s)"
| params: "reachable s \<Longrightarrow> reachable (snd (set_default_lm_params ps s))"
| prompt: "reachable s \<Longrightarrow> reachable (set_default_system_prompt p s)"
| client: "reachable s \<Longrightarrow> reachable (snd (set_default_client c s))"
| init: "reachable s \<Longrightarrow> reachable (snd (init so vo ao lo po spo co s))"

subsection \<open>Auxiliary notions for the statements\<close>

text \<open>A run of \<^verbatim>\<open>set_store\<close> calls, each with its store and its autocommit argument.\<close>

fun set_store_calls ::
  "('h store_arg \<times> bool) list \<Rightarrow> ('c, 'h, 'v) config \<Rightarrow> ('c, 'h, 'v) config" where
  "set_store_calls [] s = s"
| "set_store_calls ((st, b) # cs) s = set_store_calls cs (set_store st b s)"

text \<open>The override stack of a thread (empty when the attribute is not set), and the
  dictionary that both \<^verbatim>\<open>model_registry_override\<close> and \<^verbatim>\<open>get_client_for\<close> read: the
  top of the calling thread's stack, or the global registry.\<close>

definition stack_of :: "tid \<Rightarrow> ('c, 'h, 'v) config \<Rightarrow> addr list" where
  "stack_of t s = (case local s t of None \<Rightarrow> [] | Some st \<Rightarrow> st)"

definition current_registry :: "tid \<Rightarrow> ('c, 'h, 'v) config \<Rightarrow> addr" where
  "current_registry t s = (if stack_of t s \<noteq> [] then last (stack_of t s) else registry s)"

section \<open>Properties\<close>

subsection \<open>The invariant\<close>

lemma inv_lt: "config_inv s \<Longrightarrow> local s t = Some st \<Longrightarrow> a \<in> set st \<Longrightarrow> a < nxt s"
  unfolding config_inv_def by blast

lemma inv_ne: "config_inv s \<Longrightarrow> local s t = Some st \<Longrightarrow> a \<in> set st \<Longrightarrow> a \<noteq> registry s"
  unfolding config_inv_def by blast

lemma inv_reg: "config_inv s \<Longrightarrow> registry s < nxt s"
  unfolding config_inv_def by blast

lemma inv0: "config_inv config0"
  by (simp add: config_inv_def config0_def Config_init_def)

lemma inv_register: "config_inv s \<Longrightarrow> config_inv (register_model n c s)"
  by (simp add: config_inv_def register_model_def)

lemma inv_enter:
  assumes "config_inv s"
  shows "config_inv (model_registry_override_enter t ov s)"
proof -
  let ?s' = "model_registry_override_enter t ov s"
  have reg: "registry ?s' = registry s" and nx: "nxt ?s' = Suc (nxt s)"
    by (simp_all add: model_registry_override_enter_def Let_def)
  have "a < nxt ?s' \<and> a \<noteq> registry ?s'" if l: "local ?s' u = Some st" and a: "a \<in> set st" for u st a
  proof (cases "u = t")
    case False
    with l have "local s u = Some st"
      by (simp add: model_registry_override_enter_def Let_def)
    with assms a show ?thesis unfolding reg nx
      by (auto dest: inv_lt inv_ne simp: less_Suc_eq)
  next
    case True
    with l have st: "st = (case local s t of None \<Rightarrow> [] | Some st \<Rightarrow> st) @ [nxt s]"
      by (simp add: model_registry_override_enter_def Let_def)
    show ?thesis
    proof (cases "a = nxt s")
      case True
      with inv_reg[OF assms] show ?thesis unfolding reg nx by simp
    next
      case False
      with st a obtain st0 where "local s t = Some st0" "a \<in> set st0"
        by (cases "local s t") auto
      with assms show ?thesis unfolding reg nx
        by (auto dest: inv_lt inv_ne simp: less_Suc_eq)
    qed
  qed
  moreover have "registry ?s' < nxt ?s'"
    unfolding reg nx using inv_reg[OF assms] by simp
  ultimately show ?thesis unfolding config_inv_def by blast
qed

lemma inv_exit:
  assumes "config_inv s"
  shows "config_inv (snd (model_registry_override_exit t s))"
proof (cases "local s t")
  case None
  with assms show ?thesis by (simp add: model_registry_override_exit_def)
next
  case (Some st)
  show ?thesis
  proof (cases "st = []")
    case True
    with Some assms show ?thesis by (simp add: model_registry_override_exit_def)
  next
    case False
    with Some have eq: "snd (model_registry_override_exit t s) = s\<lparr>local := (local s)(t \<mapsto> butlast st)\<rparr>"
      by (simp add: model_registry_override_exit_def)
    have "a < nxt s \<and> a \<noteq> registry s"
      if l: "((local s)(t \<mapsto> butlast st)) u = Some st'" and a: "a \<in> set st'" for u st' a
    proof (cases "u = t")
      case True
      with l a have "a \<in> set st" by (auto dest: in_set_butlastD)
      with assms Some show ?thesis by (blast dest: inv_lt inv_ne)
    next
      case False
      with l have "local s u = Some st'" by simp
      with assms a show ?thesis by (blast dest: inv_lt inv_ne)
    qed
    with inv_reg[OF assms] show ?thesis unfolding eq config_inv_def by simp
  qed
qed

lemma inv_reset: "config_inv (reset t s)"
  by (simp add: config_inv_def reset_def Config_init_def Let_def)

lemma inv_set_store: "config_inv s \<Longrightarrow> config_inv (set_store st b s)"
  by (cases st) (simp_all add: config_inv_def set_store_def)

lemma inv_params: "config_inv s \<Longrightarrow> config_inv (snd (set_default_lm_params p s))"
  by (simp add: config_inv_def set_default_lm_params_def)

lemma inv_prompt: "config_inv s \<Longrightarrow> config_inv (set_default_system_prompt p s)"
  by (simp add: config_inv_def set_default_system_prompt_def)

lemma inv_client: "config_inv s \<Longrightarrow> config_inv (snd (set_default_client c s))"
  by (simp add: set_default_client_def)

lemma inv_flags: "config_inv s \<Longrightarrow> config_inv (s\<lparr>verbose := v, lazy_versioning := l\<rparr>)"
  by (simp add: config_inv_def)

lemma init_frame:
  "registry (snd (init so vo ao lo po spo co s)) = registry s"
  "nxt (snd (init so vo ao lo po spo co s)) = nxt s"
  "local (snd (init so vo ao lo po spo co s)) = local s"
  "heap (snd (init so vo ao lo po spo co s)) = heap s"
  "wrapped_logging (snd (init so vo ao lo po spo co s)) = wrapped_logging s"
  "override_wrapped_logging_width (snd (init so vo ao lo po spo co s)) =
     override_wrapped_logging_width s"
  by (auto simp: init_def Let_def set_store_def set_default_lm_params_def
      set_default_system_prompt_def set_default_client_def
      split: option.splits store_arg.splits)

lemma inv_init:
  assumes "config_inv s"
  shows "config_inv (snd (init so vo ao lo po spo co s))"
  using assms unfolding config_inv_def init_frame .

lemma reachable_inv: "reachable s \<Longrightarrow> config_inv s"
  by (induction rule: reachable.induct)
     (simp_all add: inv0 inv_register inv_enter inv_exit inv_reset inv_set_store inv_params
        inv_prompt inv_client inv_init)


subsection \<open>Resolution through the stack\<close>

lemma get_client_for_alt:
  "get_client_for t n s =
     (case heap s (current_registry t s) n of
        None \<Rightarrow> ((default_openai_client s, True),
                  [if verbose s
                   then (WARNING, Fore_LIGHTYELLOW_EX @ warning_message n @ Style_RESET_ALL)
                   else (DEBUG, warning_message n)])
      | Some c \<Rightarrow> ((Some c, False), []))"
  by (auto simp: get_client_for_def current_registry_def stack_of_def Let_def domIff
      split: option.splits)

lemma current_registry_lt: "config_inv s \<Longrightarrow> current_registry t s < nxt s"
  unfolding current_registry_def stack_of_def
  by (cases "local s t") (auto dest: inv_reg inv_lt[where a = "last (the (local s t))"])

lemma enter_fields:
  "registry (model_registry_override_enter t ov s) = registry s"
  "nxt (model_registry_override_enter t ov s) = Suc (nxt s)"
  "verbose (model_registry_override_enter t ov s) = verbose s"
  "default_openai_client (model_registry_override_enter t ov s) = default_openai_client s"
  "local (model_registry_override_enter t ov s) = (local s)(t \<mapsto> stack_of t s @ [nxt s])"
  "heap (model_registry_override_enter t ov s) =
     (heap s)(nxt s := heap s (current_registry t s) ++ ov)"
  by (simp_all add: model_registry_override_enter_def Let_def stack_of_def current_registry_def)

lemma enter_stack:
  "stack_of u (model_registry_override_enter t ov s) =
     (if u = t then stack_of t s @ [nxt s] else stack_of u s)"
  by (simp add: stack_of_def enter_fields)

lemma enter_current:
  "current_registry u (model_registry_override_enter t ov s) =
     (if u = t then nxt s else current_registry u s)"
  by (simp add: current_registry_def enter_stack enter_fields)

lemma enter_resolve_self:
  "get_client_for t n (model_registry_override_enter t ov s) =
     (case ov n of Some c \<Rightarrow> ((Some c, False), []) | None \<Rightarrow> get_client_for t n s)"
  by (simp add: get_client_for_alt enter_current enter_fields map_add_def split: option.splits)

lemma enter_resolve_other:
  "config_inv s \<Longrightarrow> u \<noteq> t \<Longrightarrow>
   get_client_for u n (model_registry_override_enter t ov s) = get_client_for u n s"
  using current_registry_lt[of s u]
  by (simp add: get_client_for_alt enter_current enter_fields split: option.splits)

lemma exit_after:
  assumes "local s2 t = Some (st @ [a])"
  shows "model_registry_override_exit t s2 = (Inr (), s2\<lparr>local := (local s2)(t \<mapsto> st)\<rparr>)"
  using assms by (simp add: model_registry_override_exit_def)

lemma exit_enter:
  "model_registry_override_exit t (model_registry_override_enter t ov s) =
     (Inr (), (model_registry_override_enter t ov s)\<lparr>local := (local s)(t \<mapsto> stack_of t s)\<rparr>)"
  by (simp add: exit_after[where st = "stack_of t s" and a = "nxt s"] enter_fields)

lemma resolve_after_pop:
  assumes "config_inv s"
  shows "get_client_for u n
           ((model_registry_override_enter t ov s)\<lparr>local := (local s)(t \<mapsto> stack_of t s)\<rparr>) =
         get_client_for u n s"
proof -
  let ?s' = "(model_registry_override_enter t ov s)\<lparr>local := (local s)(t \<mapsto> stack_of t s)\<rparr>"
  have st: "stack_of u ?s' = stack_of u s"
    by (simp add: stack_of_def split: option.splits)
  have cur: "current_registry u ?s' = current_registry u s"
    by (simp add: current_registry_def st enter_fields)
  from current_registry_lt[OF assms, of u] show ?thesis
    by (simp add: get_client_for_alt cur enter_fields split: option.splits)
qed

lemma stack_lt: "config_inv s \<Longrightarrow> a \<in> set (stack_of t s) \<Longrightarrow> a < nxt s"
  unfolding stack_of_def by (cases "local s t") (auto dest: inv_lt)

lemma register_fields:
  "registry (register_model name client s) = registry s"
  "verbose (register_model name client s) = verbose s"
  "default_openai_client (register_model name client s) = default_openai_client s"
  "local (register_model name client s) = local s"
  "heap (register_model name client s) =
     (heap s)(registry s := (heap s (registry s))(name \<mapsto> client))"
  by (simp_all add: register_model_def)

lemma register_stack: "stack_of t (register_model name client s) = stack_of t s"
  by (simp add: stack_of_def register_fields)

lemma register_current:
  "current_registry t (register_model name client s) = current_registry t s"
  unfolding current_registry_def register_stack by (simp add: register_fields)

lemma current_registry_frame:
  assumes "config_inv s" and "stack_of t s \<noteq> []"
  shows "current_registry t s \<noteq> registry s"
proof (cases "local s t")
  case None
  with assms(2) show ?thesis by (simp add: stack_of_def)
next
  case (Some st)
  with assms(2) have "st \<noteq> []" by (simp add: stack_of_def)
  then have "last st \<in> set st" by simp
  from inv_ne[OF assms(1) Some this] Some \<open>st \<noteq> []\<close> show ?thesis
    by (simp add: current_registry_def stack_of_def)
qed

subsection \<open>The store\<close>

lemma autocommit_set_store: "autocommit (set_store st b s) = (b \<or> autocommit s)"
  by (cases st) (simp_all add: set_store_def)

lemma autocommit_set_store_calls:
  "autocommit s \<Longrightarrow> autocommit (set_store_calls cs s)"
  by (induction cs arbitrary: s) (auto simp: autocommit_set_store)

text \<open>
  C10. The autocommit flag only grows under \<^verbatim>\<open>set_store\<close>: after
  \<^verbatim>\<open>set_store(store, autocommit=b)\<close> it is \<open>b\<close> or its previous value, and once it is
  true it stays true through any further run of \<^verbatim>\<open>set_store\<close> calls, whatever their
  autocommit arguments (in particular \<^verbatim>\<open>autocommit=False\<close>).
\<close>

theorem set_store_autocommit_monotone:
  "autocommit (set_store st b s) = (b \<or> autocommit s) \<and>
   (autocommit s \<longrightarrow> autocommit (set_store st False s)) \<and>
   (autocommit s \<longrightarrow> autocommit (set_store_calls cs s))"
  by (simp add: autocommit_set_store autocommit_set_store_calls)

theorem set_store_autocommit_monotone_witness:
  "autocommit (set_store (Path ''a.db'') True (config0 :: (nat, nat, nat) config)) \<and>
   autocommit (set_store (Handle 3) False
     (set_store (Path ''a.db'') True (config0 :: (nat, nat, nat) config))) \<and>
   autocommit (set_store_calls [(Handle 3, False), (Path ''b.db'', False)]
     (set_store (Path ''a.db'') True (config0 :: (nat, nat, nat) config)))"
  using set_store_autocommit_monotone
    [of "Path ''a.db''" True "config0 :: (nat, nat, nat) config" "[]"]
    set_store_autocommit_monotone
    [of "Handle 3" False "set_store (Path ''a.db'') True (config0 :: (nat, nat, nat) config)"
        "[(Handle 3, False), (Path ''b.db'', False)]"]
  by simp

subsection \<open>Scoped overrides\<close>

text \<open>
  C4. Scope restoration: inside \<^verbatim>\<open>with model_registry_override({m: B})\<close> the calling
  thread resolves \<open>m\<close> to \<open>(B, False)\<close>; the statement completes, and afterwards the
  thread resolves \<open>m\<close> (and every other name) exactly as before entry, log records
  included. This holds from every well-formed state, whatever the thread's stack and
  the registry hold.
\<close>

theorem override_scope_restores:
  assumes "config_inv s"
  shows "\<exists>s'. model_registry_override t [m \<mapsto> B]
                (\<lambda>s1. (Inr (fst (get_client_for t m s1)), s1)) s = (Inr (Some B, False), s') \<and>
              (\<forall>n. get_client_for t n s' = get_client_for t n s)"
  by (simp add: model_registry_override_def enter_resolve_self exit_enter
        resolve_after_pop[OF assms])

theorem override_scope_restores_witness:
  "\<exists>s'. model_registry_override 0 [''gpt-x'' \<mapsto> 22]
           (\<lambda>s1. (Inr (fst (get_client_for 0 ''gpt-x'' s1)), s1))
           (register_model ''gpt-x'' (11::nat) (config0 :: (nat, nat, nat) config)) =
         (Inr (Some 22, False), s') \<and>
       get_client_for 0 ''gpt-x'' s' = ((Some 11, False), [])"
proof -
  have inv: "config_inv (register_model ''gpt-x'' (11::nat) (config0 :: (nat, nat, nat) config))"
    by (simp add: inv_register inv0)
  have r: "get_client_for 0 ''gpt-x''
      (register_model ''gpt-x'' (11::nat) (config0 :: (nat, nat, nat) config)) = ((Some 11, False), [])"
    by (simp add: get_client_for_def register_model_def config0_def Config_init_def)
  from override_scope_restores[OF inv, of 0 "''gpt-x''" 22] show ?thesis
    by (auto simp: r)
qed

text \<open>
  C5. Nesting composes: with \<^verbatim>\<open>{a: X}\<close> entered and \<^verbatim>\<open>{b: Y}\<close> entered inside it, the
  calling thread resolves \<open>b\<close> to \<open>(Y, False)\<close> and, \<open>a\<close> and \<open>b\<close> being different
  names, \<open>a\<close> to \<open>(X, False)\<close>. The inner exit succeeds and leaves the stack as it was
  inside the outer scope: \<open>b\<close> resolves as it did before the inner entry, \<open>a\<close> still
  resolves to \<open>(X, False)\<close>, and every name other than \<open>a\<close> resolves as it did before the
  outer entry.
\<close>

theorem nested_overrides_compose:
  assumes "config_inv s"
  shows "let s1 = model_registry_override_enter t [a \<mapsto> X] s;
             s2 = model_registry_override_enter t [b \<mapsto> Y] s1
         in (a \<noteq> b \<longrightarrow> get_client_for t a s2 = ((Some X, False), [])) \<and>
            get_client_for t b s2 = ((Some Y, False), []) \<and>
            (\<exists>s3. model_registry_override_exit t s2 = (Inr (), s3) \<and>
               stack_of t s3 = stack_of t s1 \<and>
               get_client_for t b s3 = get_client_for t b s1 \<and>
               get_client_for t a s3 = ((Some X, False), []) \<and>
               (\<forall>n. n \<noteq> a \<longrightarrow> get_client_for t n s3 = get_client_for t n s))"
proof -
  define s1 where "s1 = model_registry_override_enter t [a \<mapsto> X] s"
  define s2 where "s2 = model_registry_override_enter t [b \<mapsto> Y] s1"
  define s3 where "s3 = s2\<lparr>local := (local s1)(t \<mapsto> stack_of t s1)\<rparr>"
  have inv1: "config_inv s1" unfolding s1_def by (rule inv_enter[OF assms])
  have a1: "get_client_for t a s1 = ((Some X, False), [])"
    unfolding s1_def by (simp add: enter_resolve_self)
  have n1: "get_client_for t n s1 = get_client_for t n s" if "n \<noteq> a" for n
    unfolding s1_def using that by (simp add: enter_resolve_self)
  have in_a: "a \<noteq> b \<Longrightarrow> get_client_for t a s2 = ((Some X, False), [])"
    unfolding s2_def by (simp add: enter_resolve_self a1)
  have in_b: "get_client_for t b s2 = ((Some Y, False), [])"
    unfolding s2_def by (simp add: enter_resolve_self)
  have popped: "model_registry_override_exit t s2 = (Inr (), s3)"
    unfolding s2_def s3_def by (rule exit_enter)
  have reverted: "get_client_for t n s3 = get_client_for t n s1" for n
    unfolding s3_def s2_def by (rule resolve_after_pop[OF inv1])
  have st: "stack_of t s3 = stack_of t s1"
    unfolding s3_def by (simp add: stack_of_def split: option.splits)
  show ?thesis
    unfolding Let_def s1_def[symmetric] s2_def[symmetric]
    using in_a in_b popped reverted st a1 n1 by simp
qed

theorem nested_overrides_compose_witness:
  "get_client_for 0 ''a''
     (model_registry_override_enter 0 [''b'' \<mapsto> 22]
       (model_registry_override_enter 0 [''a'' \<mapsto> (11::nat)]
         (config0 :: (nat, nat, nat) config))) = ((Some 11, False), []) \<and>
   get_client_for 0 ''b''
     (model_registry_override_enter 0 [''b'' \<mapsto> 22]
       (model_registry_override_enter 0 [''a'' \<mapsto> (11::nat)]
         (config0 :: (nat, nat, nat) config))) = ((Some 22, False), []) \<and>
   (\<exists>s3. model_registry_override_exit 0
            (model_registry_override_enter 0 [''b'' \<mapsto> 22]
              (model_registry_override_enter 0 [''a'' \<mapsto> (11::nat)]
                (config0 :: (nat, nat, nat) config))) = (Inr (), s3) \<and>
         get_client_for 0 ''a'' s3 = ((Some 11, False), []) \<and>
         fst (get_client_for 0 ''b'' s3) = (None, True))"
proof -
  have ne: "''a'' \<noteq> ''b''" by simp
  have b0: "fst (get_client_for 0 ''b'' (config0 :: (nat, nat, nat) config)) = (None, True)"
    by (simp add: get_client_for_def config0_def Config_init_def)
  from nested_overrides_compose[OF inv0, of 0 "''a''" 11 "''b''" 22] ne b0
  show ?thesis
    unfolding Let_def by auto
qed


text \<open>
  C6 (as amended). Guaranteed pop for a body that leaves the calling thread's stack as
  it found it: when such a body raises \<open>e\<close>, the \<^verbatim>\<open>with\<close> statement raises \<open>e\<close> after
  popping exactly one frame. The thread's stack is the one from before entry, so of the
  same depth, and the dictionary built for the aborted override is no longer on it. A
  later \<^verbatim>\<open>get_client_for\<close> on the thread reads the top of the stack from before entry, or
  the registry when that stack was empty, never the aborted dictionary; it resolves
  every name as the state left by the body does once the thread's stack is put back to
  what it was before entry, and exactly as before entry when the body left the
  registry binding, the dictionary read before entry, the default client and the
  verbosity as they were.
\<close>

theorem override_pops_on_error:
  assumes inv: "config_inv s"
    and raises: "body (model_registry_override_enter t ov s) = (Inl e, s2)"
    and balanced: "local s2 t = local (model_registry_override_enter t ov s) t"
  shows "\<exists>s3. model_registry_override t ov body s = (Inl e, s3) \<and>
           s3 = s2\<lparr>local := (local s2)(t \<mapsto> stack_of t s)\<rparr> \<and>
           stack_of t s3 = stack_of t s \<and>
           length (stack_of t s3) = length (stack_of t s) \<and>
           nxt s \<notin> set (stack_of t s3) \<and>
           current_registry t s3 =
             (if stack_of t s \<noteq> [] then last (stack_of t s) else registry s2) \<and>
           (config_inv s2 \<longrightarrow> current_registry t s3 \<noteq> nxt s) \<and>
           (\<forall>n. get_client_for t n s3 = get_client_for t n (s2\<lparr>local := local s\<rparr>)) \<and>
           (registry s2 = registry s \<and>
            heap s2 (current_registry t s) = heap s (current_registry t s) \<and>
            default_openai_client s2 = default_openai_client s \<and>
            verbose s2 = verbose s \<longrightarrow>
              (\<forall>n. get_client_for t n s3 = get_client_for t n s))"
proof -
  define s3 where "s3 = s2\<lparr>local := (local s2)(t \<mapsto> stack_of t s)\<rparr>"
  from balanced have l2: "local s2 t = Some (stack_of t s @ [nxt s])"
    by (simp add: enter_fields)
  have popped: "model_registry_override_exit t s2 = (Inr (), s3)"
    unfolding s3_def by (rule exit_after[OF l2])
  have res: "model_registry_override t ov body s = (Inl e, s3)"
    by (simp add: model_registry_override_def raises popped)
  have st: "stack_of t s3 = stack_of t s"
    by (simp add: s3_def stack_of_def)
  have fresh: "nxt s \<notin> set (stack_of t s3)"
    unfolding st using stack_lt[OF inv, of "nxt s" t] by blast
  have cur: "current_registry t s3 =
      (if stack_of t s \<noteq> [] then last (stack_of t s) else registry s2)"
    unfolding current_registry_def st by (simp add: s3_def)
  have off: "current_registry t s3 \<noteq> nxt s" if inv2: "config_inv s2"
  proof (cases "stack_of t s = []")
    case True
    have "nxt s \<in> set (stack_of t s @ [nxt s])" by simp
    from inv_ne[OF inv2 l2 this] True show ?thesis
      unfolding cur by simp
  next
    case False
    then have "last (stack_of t s) \<in> set (stack_of t s)" by simp
    from stack_lt[OF inv this] False show ?thesis
      unfolding cur by simp
  qed
  have st': "stack_of t (s2\<lparr>local := local s\<rparr>) = stack_of t s"
    by (simp add: stack_of_def)
  have cur': "current_registry t (s2\<lparr>local := local s\<rparr>) = current_registry t s3"
    unfolding cur unfolding current_registry_def st' by simp
  have f: "heap s3 = heap s2" "default_openai_client s3 = default_openai_client s2"
    "verbose s3 = verbose s2"
    by (simp_all add: s3_def)
  have as_if: "get_client_for t n s3 = get_client_for t n (s2\<lparr>local := local s\<rparr>)" for n
    by (simp add: get_client_for_alt cur' f split: option.splits)
  have same: "get_client_for t n s3 = get_client_for t n s"
    if "registry s2 = registry s"
      and "heap s2 (current_registry t s) = heap s (current_registry t s)"
      and "default_openai_client s2 = default_openai_client s"
      and "verbose s2 = verbose s" for n
  proof -
    from that(1) have c: "current_registry t s3 = current_registry t s"
      unfolding cur by (simp add: current_registry_def)
    from that(2,3,4) show ?thesis
      by (simp add: get_client_for_alt c f split: option.splits)
  qed
  from res st fresh cur off as_if same show ?thesis
    unfolding s3_def[symmetric] by simp
qed

theorem override_pops_on_error_witness:
  "\<exists>s3. model_registry_override 0 [''m'' \<mapsto> (22::nat)]
           (\<lambda>s1. (Inl (ValueError ''boom'') :: error + unit, register_model ''m'' 33 s1))
           (model_registry_override_enter 0 [''a'' \<mapsto> 11]
             (config0 :: (nat, nat, nat) config)) = (Inl (ValueError ''boom''), s3) \<and>
        stack_of 0 s3 = [1] \<and>
        current_registry 0 s3 = 1 \<and>
        fst (get_client_for 0 ''m'' s3) = (None, True) \<and>
        fst (get_client_for 0 ''a'' s3) = (Some 11, False)"
proof -
  let ?s = "model_registry_override_enter 0 [''a'' \<mapsto> (11::nat)]
      (config0 :: (nat, nat, nat) config)"
  let ?body = "\<lambda>s1 :: (nat, nat, nat) config.
      (Inl (ValueError ''boom'') :: error + unit, register_model ''m'' 33 s1)"
  let ?s2 = "register_model ''m'' 33 (model_registry_override_enter 0 [''m'' \<mapsto> 22] ?s)"
  have inv: "config_inv ?s" by (rule inv_enter[OF inv0])
  have inv2: "config_inv ?s2" by (intro inv_register inv_enter inv0)
  have raises: "?body (model_registry_override_enter 0 [''m'' \<mapsto> 22] ?s) =
      (Inl (ValueError ''boom''), ?s2)"
    by simp
  have balanced: "local ?s2 0 = local (model_registry_override_enter 0 [''m'' \<mapsto> 22] ?s) 0"
    by (simp add: register_fields)
  have st0: "stack_of 0 ?s = [1]"
    by (simp add: stack_of_def model_registry_override_enter_def config0_def Config_init_def
        Let_def)
  have cur0: "current_registry 0 ?s = 1"
    by (simp add: current_registry_def st0)
  have kept: "registry ?s2 = registry ?s" "heap ?s2 1 = heap ?s 1"
    "default_openai_client ?s2 = default_openai_client ?s" "verbose ?s2 = verbose ?s"
    by (simp_all add: register_model_def model_registry_override_enter_def config0_def
        Config_init_def Let_def)
  have before: "fst (get_client_for 0 ''m'' ?s) = (None, True)"
    "fst (get_client_for 0 ''a'' ?s) = (Some 11, False)"
    by (simp_all add: enter_resolve_self) (simp add: get_client_for_def config0_def Config_init_def)
  from override_pops_on_error[where body = ?body and t = 0 and ov = "[''m'' \<mapsto> 22]",
      OF inv raises balanced] st0 kept before inv2
  show ?thesis
    unfolding cur0 by auto
qed

text \<open>
  C6, counterexample. As stated, for every body, the property fails: thread 0 is inside
  the override \<^verbatim>\<open>{a: 11}\<close> (depth 1) and enters \<^verbatim>\<open>{m: 22}\<close> with a body that calls
  \<^verbatim>\<open>reset\<close> on its own thread and then raises \<^verbatim>\<open>ValueError\<close>. The \<^verbatim>\<open>finally\<close> clause
  finds no attribute \<^verbatim>\<open>stack\<close>: no frame is popped, the statement raises
  \<^verbatim>\<open>AttributeError\<close> in place of the body's error, and the depth afterwards is 0.
\<close>

theorem override_pops_on_error_counterexample:
  "stack_of 0 (model_registry_override_enter 0 [''a'' \<mapsto> (11::nat)]
      (config0 :: (nat, nat, nat) config)) = [1] \<and>
   fst (model_registry_override 0 [''m'' \<mapsto> 22]
      (\<lambda>s1. (Inl (ValueError ''boom'') :: error + unit, reset 0 s1))
      (model_registry_override_enter 0 [''a'' \<mapsto> (11::nat)]
        (config0 :: (nat, nat, nat) config))) = Inl (AttributeError ''stack'') \<and>
   stack_of 0 (snd (model_registry_override 0 [''m'' \<mapsto> 22]
      (\<lambda>s1. (Inl (ValueError ''boom'') :: error + unit, reset 0 s1))
      (model_registry_override_enter 0 [''a'' \<mapsto> (11::nat)]
        (config0 :: (nat, nat, nat) config)))) = []"
  by (simp add: stack_of_def model_registry_override_def model_registry_override_enter_def
      model_registry_override_exit_def reset_def config0_def Config_init_def Let_def)

text \<open>
  C7. Frames are frozen snapshots: \<^verbatim>\<open>register_model\<close> leaves every thread's stack and
  the contents of every dictionary on a stack as they are, so a thread with an active
  override resolves every name as before the call; a thread with an empty stack
  resolves the registered name to the new client.
\<close>

theorem register_keeps_frames:
  assumes "config_inv s"
  shows "local (register_model name client s) = local s \<and>
         (\<forall>t. \<forall>a \<in> set (stack_of t s). heap (register_model name client s) a = heap s a) \<and>
         (\<forall>t n. stack_of t s \<noteq> [] \<longrightarrow>
            get_client_for t n (register_model name client s) = get_client_for t n s) \<and>
         (\<forall>t. stack_of t s = [] \<longrightarrow>
            get_client_for t name (register_model name client s) = ((Some client, False), []))"
proof -
  let ?s' = "register_model name client s"
  have l: "local ?s' = local s" by (simp add: register_model_def)
  have ne: "a \<noteq> registry s" if "a \<in> set (stack_of t s)" for a t
    using that assms unfolding stack_of_def by (cases "local s t") (auto dest: inv_ne)
  then have frames: "heap ?s' a = heap s a" if "a \<in> set (stack_of t s)" for a t
    using that by (simp add: register_model_def)
  have st: "stack_of t ?s' = stack_of t s" for t
    by (simp add: stack_of_def l)
  have cur: "current_registry t ?s' = current_registry t s" for t
    unfolding current_registry_def st by (simp add: register_fields)
  have active: "get_client_for t n ?s' = get_client_for t n s" if "stack_of t s \<noteq> []" for t n
  proof -
    from that have "current_registry t s \<in> set (stack_of t s)"
      by (simp add: current_registry_def)
    then have "heap ?s' (current_registry t s) = heap s (current_registry t s)"
      by (rule frames)
    then show ?thesis
      by (simp add: get_client_for_alt cur register_fields(2,3) split: option.splits)
  qed
  have idle: "get_client_for t name ?s' = ((Some client, False), [])" if "stack_of t s = []" for t
  proof -
    from that have "current_registry t ?s' = registry s"
      unfolding cur by (simp add: current_registry_def)
    then show ?thesis
      by (simp add: get_client_for_alt register_fields)
  qed
  from l frames active idle show ?thesis by blast
qed


theorem register_keeps_frames_witness:
  "get_client_for 1 ''m''
     (register_model ''m'' 11
       (model_registry_override_enter 1 [''m'' \<mapsto> (22::nat)]
         (config0 :: (nat, nat, nat) config))) = ((Some 22, False), []) \<and>
   get_client_for 0 ''m''
     (register_model ''m'' 11
       (model_registry_override_enter 1 [''m'' \<mapsto> (22::nat)]
         (config0 :: (nat, nat, nat) config))) = ((Some 11, False), [])"
proof -
  let ?s = "model_registry_override_enter 1 [''m'' \<mapsto> (22::nat)] (config0 :: (nat, nat, nat) config)"
  have inv: "config_inv ?s" by (rule inv_enter[OF inv0])
  have busy: "stack_of 1 ?s \<noteq> []" by (simp add: enter_stack)
  have idle: "stack_of 0 ?s = []"
    by (simp add: enter_stack) (simp add: stack_of_def config0_def Config_init_def)
  have before: "get_client_for 1 ''m'' ?s = ((Some 22, False), [])"
    by (simp add: enter_resolve_self)
  from register_keeps_frames[OF inv, of "''m''" 11] busy idle before show ?thesis
    by simp
qed

subsection \<open>Registration\<close>

text \<open>
  C9 (as amended). Explicit wins on a thread without an active override: after
  \<^verbatim>\<open>register_model(name, A)\<close> a thread whose stack is empty resolves \<open>name\<close> to
  \<open>(A, False)\<close>. On a thread with an active override the top of its stack decides
  alone: the thread resolves \<open>name\<close> as before the call, to the entry of that
  dictionary when it has one and to the fallback otherwise.
\<close>

theorem register_explicit_wins:
  assumes "config_inv s"
  shows "(stack_of t s = [] \<longrightarrow>
            get_client_for t name (register_model name A s) = ((Some A, False), [])) \<and>
         (stack_of t s \<noteq> [] \<longrightarrow>
            get_client_for t name (register_model name A s) = get_client_for t name s \<and>
            fst (get_client_for t name (register_model name A s)) =
              (case heap s (last (stack_of t s)) name of
                 Some c \<Rightarrow> (Some c, False)
               | None \<Rightarrow> (default_openai_client s, True)))"
proof (cases "stack_of t s = []")
  case True
  then have "current_registry t s = registry s"
    by (simp add: current_registry_def)
  then have "get_client_for t name (register_model name A s) = ((Some A, False), [])"
    by (simp add: get_client_for_alt register_current register_fields)
  with True show ?thesis by simp
next
  case False
  from current_registry_frame[OF assms False]
  have same: "get_client_for t name (register_model name A s) = get_client_for t name s"
    by (simp add: get_client_for_alt register_current register_fields split: option.splits)
  from False have "current_registry t s = last (stack_of t s)"
    by (simp add: current_registry_def)
  then have "fst (get_client_for t name s) =
      (case heap s (last (stack_of t s)) name of
         Some c \<Rightarrow> (Some c, False)
       | None \<Rightarrow> (default_openai_client s, True))"
    by (simp add: get_client_for_alt split: option.splits)
  with same False show ?thesis by simp
qed

theorem register_explicit_wins_witness:
  "get_client_for 0 ''y''
     (register_model ''y'' (11::nat)
       (model_registry_override_enter 1 [''x'' \<mapsto> 22]
         (config0 :: (nat, nat, nat) config))) = ((Some 11, False), []) \<and>
   fst (get_client_for 1 ''x''
     (register_model ''x'' (11::nat)
       (model_registry_override_enter 1 [''x'' \<mapsto> 22]
         (config0 :: (nat, nat, nat) config)))) = (Some 22, False)"
proof -
  let ?s = "model_registry_override_enter 1 [''x'' \<mapsto> (22::nat)] (config0 :: (nat, nat, nat) config)"
  have inv: "config_inv ?s" by (rule inv_enter[OF inv0])
  have busy: "stack_of 1 ?s \<noteq> []" by (simp add: enter_stack)
  have idle: "stack_of 0 ?s = []"
    by (simp add: enter_stack) (simp add: stack_of_def config0_def Config_init_def)
  have before: "get_client_for 1 ''x'' ?s = ((Some 22, False), [])"
    by (simp add: enter_resolve_self)
  from register_explicit_wins[OF inv, of 0 "''y''" 11]
    register_explicit_wins[OF inv, of 1 "''x''" 11] busy idle before
  show ?thesis by simp
qed

text \<open>
  C9, counterexample. As stated the property fails where the top dictionary has no
  entry for the name: thread
  1 holds the override \<^verbatim>\<open>{x: 22}\<close>, whose dictionary (address 1) has no entry for \<open>y\<close>;
  after \<^verbatim>\<open>register_model(y, 11)\<close> the thread resolves \<open>y\<close> to the fallback, not to
  \<open>(11, False)\<close>.
\<close>

theorem register_explicit_wins_counterexample:
  "stack_of 1
     (register_model ''y'' (11::nat)
       (model_registry_override_enter 1 [''x'' \<mapsto> 22]
         (config0 :: (nat, nat, nat) config))) = [1] \<and>
   heap
     (register_model ''y'' (11::nat)
       (model_registry_override_enter 1 [''x'' \<mapsto> 22]
         (config0 :: (nat, nat, nat) config))) 1 ''y'' = None \<and>
   get_client_for 1 ''y''
     (register_model ''y'' (11::nat)
       (model_registry_override_enter 1 [''x'' \<mapsto> 22]
         (config0 :: (nat, nat, nat) config))) \<noteq> ((Some 11, False), []) \<and>
   fst (get_client_for 1 ''y''
     (register_model ''y'' (11::nat)
       (model_registry_override_enter 1 [''x'' \<mapsto> 22]
         (config0 :: (nat, nat, nat) config)))) = (None, True)"
  by (simp add: stack_of_def get_client_for_def register_model_def
      model_registry_override_enter_def config0_def Config_init_def Let_def)

subsection \<open>The fallback and its log record\<close>

text \<open>
  C8 (as amended). When the name is not a key of the dictionary that
  \<^verbatim>\<open>get_client_for\<close> reads, the call returns the default client with \<^verbatim>\<open>fallback = True\<close>
  and hands exactly one record to the logger: at \<open>WARNING\<close> the warning text between
  \<^verbatim>\<open>Fore.LIGHTYELLOW_EX\<close> and \<^verbatim>\<open>Style.RESET_ALL\<close> when \<^verbatim>\<open>verbose\<close> is set, at \<open>DEBUG\<close>
  the bare warning text otherwise. When the name is a key, the call returns its entry
  with \<^verbatim>\<open>fallback = False\<close> and logs nothing. The function has no raising branch.
\<close>

theorem fallback_logs_once:
  "(model_name \<notin> dom (heap s (current_registry t s)) \<longrightarrow>
      get_client_for t model_name s =
        ((default_openai_client s, True),
         [if verbose s
          then (WARNING, Fore_LIGHTYELLOW_EX @ warning_message model_name @ Style_RESET_ALL)
          else (DEBUG, warning_message model_name)])) \<and>
   (model_name \<in> dom (heap s (current_registry t s)) \<longrightarrow>
      get_client_for t model_name s =
        ((heap s (current_registry t s) model_name, False), [])) \<and>
   length (snd (get_client_for t model_name s)) =
     (if snd (fst (get_client_for t model_name s)) then 1 else 0)"
  by (auto simp: get_client_for_alt split: option.splits)

theorem fallback_logs_once_witness:
  "get_client_for 0 ''unknown-model''
     (register_model ''gpt-x'' (11::nat) (config0 :: (nat, nat, nat) config)) =
     ((None, True), [(DEBUG, warning_message ''unknown-model'')]) \<and>
   get_client_for 0 ''unknown-model''
     (snd (init None (Some True) None None None None None
       (register_model ''gpt-x'' (11::nat) (config0 :: (nat, nat, nat) config)))) =
     ((None, True),
      [(WARNING, Fore_LIGHTYELLOW_EX @ warning_message ''unknown-model'' @ Style_RESET_ALL)]) \<and>
   get_client_for 0 ''gpt-x''
     (register_model ''gpt-x'' (11::nat) (config0 :: (nat, nat, nat) config)) =
     ((Some 11, False), [])"
proof -
  let ?s = "register_model ''gpt-x'' (11::nat) (config0 :: (nat, nat, nat) config)"
  let ?v = "snd (init None (Some True) None None None None None ?s)"
  have v: "?v = ?s\<lparr>verbose := True, lazy_versioning := True\<rparr>"
    by (simp add: init_def)
  have cur: "current_registry 0 ?s = 0" "current_registry 0 ?v = 0"
    unfolding v
    by (simp_all add: current_registry_def stack_of_def register_model_def config0_def
        Config_init_def)
  have h: "heap ?s 0 = [''gpt-x'' \<mapsto> 11]" "heap ?v 0 = [''gpt-x'' \<mapsto> 11]"
    unfolding v
    by (simp_all add: register_model_def config0_def Config_init_def)
  have f: "default_openai_client ?s = None" "default_openai_client ?v = None"
    "\<not> verbose ?s" "verbose ?v"
    unfolding v
    by (simp_all add: register_model_def config0_def Config_init_def)
  from fallback_logs_once[of "''unknown-model''" ?s 0, unfolded cur h]
    fallback_logs_once[of "''unknown-model''" ?v 0, unfolded cur h]
    fallback_logs_once[of "''gpt-x''" ?s 0, unfolded cur h] f
  show ?thesis
    by simp
qed

text \<open>
  C8, counterexample. With \<^verbatim>\<open>verbose\<close> set by \<^verbatim>\<open>init(verbose=True)\<close> the single record
  is at \<open>WARNING\<close>, without it at \<open>DEBUG\<close>, and the two records do not carry the same
  message: the one at \<open>WARNING\<close> is wrapped in the colour escape sequences.
\<close>

theorem fallback_message_counterexample:
  "map fst (snd (get_client_for 0 ''m''
      (snd (init None (Some True) None None None None None
        (config0 :: (nat, nat, nat) config))))) = [WARNING] \<and>
   map fst (snd (get_client_for 0 ''m'' (config0 :: (nat, nat, nat) config))) = [DEBUG] \<and>
   map snd (snd (get_client_for 0 ''m''
      (snd (init None (Some True) None None None None None
        (config0 :: (nat, nat, nat) config))))) \<noteq>
   map snd (snd (get_client_for 0 ''m'' (config0 :: (nat, nat, nat) config)))"
  by (simp add: get_client_for_def init_def config0_def Config_init_def Fore_LIGHTYELLOW_EX_def)

subsection \<open>Bulk initialisation\<close>

text \<open>
  C3 (as amended). \<^verbatim>\<open>init\<close> always assigns \<^verbatim>\<open>verbose\<close> and \<^verbatim>\<open>lazy_versioning\<close>, to the
  value passed or else to the defaults \<^verbatim>\<open>False\<close> and \<^verbatim>\<open>True\<close>. A store that is passed is
  applied by \<^verbatim>\<open>set_store\<close> with the autocommit argument (default \<^verbatim>\<open>True\<close>), and the
  store and the autocommit flag are left alone when none is passed. Default parameters
  that are passed are applied by \<^verbatim>\<open>set_default_lm_params\<close>: stored when the mapping has
  no key \<^verbatim>\<open>'self'\<close>; with that key the setter raises \<^verbatim>\<open>TypeError\<close>, the call ends with
  that error, and neither the parameters nor the system prompt change. Otherwise a
  system prompt that is passed is applied by \<^verbatim>\<open>set_default_system_prompt\<close>, and
  parameters and prompt that are not passed stay as they were; with no default client
  passed the call then returns normally. The registry, the stacks, the dictionaries and
  the two logging fields are never touched.
\<close>

theorem init_applies_options:
  "let r = init so vo ao lo po spo co s;
       s' = snd r;
       a = (case ao of None \<Rightarrow> True | Some b \<Rightarrow> b);
       stopped = (case po of None \<Rightarrow> False | Some params \<Rightarrow> ''self'' \<in> dom params)
   in verbose s' = (case vo of None \<Rightarrow> False | Some b \<Rightarrow> b) \<and>
      lazy_versioning s' = (case lo of None \<Rightarrow> True | Some b \<Rightarrow> b) \<and>
      (case so of
         None \<Rightarrow> store s' = store s \<and> autocommit s' = autocommit s
       | Some st \<Rightarrow>
           store s' = store (set_store st a s) \<and>
           autocommit s' = (a \<or> autocommit s)) \<and>
      (case po of
         None \<Rightarrow> default_lm_params s' = default_lm_params s
       | Some params \<Rightarrow>
           default_lm_params s' = default_lm_params (snd (set_default_lm_params params s)) \<and>
           (''self'' \<notin> dom params \<longrightarrow> default_lm_params s' = params) \<and>
           (''self'' \<in> dom params \<longrightarrow> default_lm_params s' = default_lm_params s)) \<and>
      (stopped \<longrightarrow>
         (\<exists>msg. fst r = Inl (TypeError msg)) \<and>
         default_system_prompt s' = default_system_prompt s) \<and>
      (\<not> stopped \<longrightarrow>
         default_system_prompt s' =
           (case spo of
              None \<Rightarrow> default_system_prompt s
            | Some prompt \<Rightarrow> default_system_prompt (set_default_system_prompt prompt s)) \<and>
         (co = None \<longrightarrow> fst r = Inr ())) \<and>
      registry s' = registry s \<and> heap s' = heap s \<and> nxt s' = nxt s \<and>
      local s' = local s \<and>
      wrapped_logging s' = wrapped_logging s \<and>
      override_wrapped_logging_width s' = override_wrapped_logging_width s"
  unfolding Let_def init_frame
  by (cases so; cases po; cases spo; cases co)
     (auto simp: init_def Let_def set_store_def set_default_lm_params_def
        set_default_system_prompt_def set_default_client_def
        split: store_arg.splits option.splits)

theorem init_applies_options_witness:
  "verbose (snd (init (Some (Path ''ell.db'')) (Some True) None None
      (Some [''temperature'' \<mapsto> 7]) (Some ''Be brief.'') None
      (config0 :: (nat, nat, nat) config))) \<and>
   lazy_versioning (snd (init (Some (Path ''ell.db'')) (Some True) None None
      (Some [''temperature'' \<mapsto> 7]) (Some ''Be brief.'') None
      (config0 :: (nat, nat, nat) config))) \<and>
   store (snd (init (Some (Path ''ell.db'')) (Some True) None None
      (Some [''temperature'' \<mapsto> 7]) (Some ''Be brief.'') None
      (config0 :: (nat, nat, nat) config))) = Some (SQLiteStore ''ell.db'') \<and>
   autocommit (snd (init (Some (Path ''ell.db'')) (Some True) None None
      (Some [''temperature'' \<mapsto> 7]) (Some ''Be brief.'') None
      (config0 :: (nat, nat, nat) config))) \<and>
   default_lm_params (snd (init (Some (Path ''ell.db'')) (Some True) None None
      (Some [''temperature'' \<mapsto> 7]) (Some ''Be brief.'') None
      (config0 :: (nat, nat, nat) config))) = [''temperature'' \<mapsto> 7] \<and>
   default_system_prompt (snd (init (Some (Path ''ell.db'')) (Some True) None None
      (Some [''temperature'' \<mapsto> 7]) (Some ''Be brief.'') None
      (config0 :: (nat, nat, nat) config))) = ''Be brief.'' \<and>
   fst (init (Some (Path ''ell.db'')) (Some True) None None
      (Some [''temperature'' \<mapsto> 7]) (Some ''Be brief.'') None
      (config0 :: (nat, nat, nat) config)) = Inr () \<and>
   (\<exists>msg. fst (init None None None None (Some [''self'' \<mapsto> 1]) (Some ''P'') None
      (config0 :: (nat, nat, nat) config)) = Inl (TypeError msg)) \<and>
   default_lm_params (snd (init None None None None (Some [''self'' \<mapsto> 1]) (Some ''P'') None
      (config0 :: (nat, nat, nat) config))) = Map.empty \<and>
   default_system_prompt (snd (init None None None None (Some [''self'' \<mapsto> 1]) (Some ''P'')
      None (config0 :: (nat, nat, nat) config))) = ''You are a helpful AI assistant.''"
proof -
  have d: "default_lm_params (config0 :: (nat, nat, nat) config) = Map.empty"
    "default_system_prompt (config0 :: (nat, nat, nat) config) =
       ''You are a helpful AI assistant.''"
    by (simp_all add: config0_def Config_init_def)
  have k: "''self'' \<notin> dom [''temperature'' \<mapsto> (7::nat)]" "''self'' \<in> dom [''self'' \<mapsto> (1::nat)]"
    by simp_all
  from init_applies_options
      [of "Some (Path ''ell.db'')" "Some True" None None "Some [''temperature'' \<mapsto> 7]"
          "Some ''Be brief.''" None "config0 :: (nat, nat, nat) config"]
    init_applies_options
      [of None None None None "Some [''self'' \<mapsto> 1]" "Some ''P''" None
          "config0 :: (nat, nat, nat) config"]
    k
  show ?thesis
    unfolding Let_def
    by (simp add: d set_default_system_prompt_def set_store_def set_default_lm_params_def)
qed

text \<open>
  C3, counterexample. As stated the property fails for the two flags: after \<^verbatim>\<open>init(verbose=True)\<close> a call
  \<^verbatim>\<open>init()\<close> turns \<^verbatim>\<open>verbose\<close> off again, and after \<^verbatim>\<open>init(lazy_versioning=False)\<close> a
  call \<^verbatim>\<open>init()\<close> turns \<^verbatim>\<open>lazy_versioning\<close> on again.
\<close>

theorem init_absent_flags_counterexample:
  "verbose (snd (init None (Some True) None None None None None
      (config0 :: (nat, nat, nat) config))) \<and>
   \<not> verbose (snd (init None None None None None None None
      (snd (init None (Some True) None None None None None
        (config0 :: (nat, nat, nat) config))))) \<and>
   \<not> lazy_versioning (snd (init None None None (Some False) None None None
      (config0 :: (nat, nat, nat) config))) \<and>
   lazy_versioning (snd (init None None None None None None None
      (snd (init None None None (Some False) None None None
        (config0 :: (nat, nat, nat) config)))))"
  by (simp add: init_def config0_def Config_init_def)

subsection \<open>The default client\<close>

text \<open>
  C1. \<^verbatim>\<open>set_default_client(7)\<close> on the fresh singleton raises and stores nothing that
  \<^verbatim>\<open>get_client_for\<close> reads: an unregistered name still resolves to \<open>(None, True)\<close>,
  after the direct call and after \<^verbatim>\<open>init(default_openai_client=7)\<close> alike.
\<close>

theorem set_default_client_not_read:
  "fst (set_default_client (7::nat) (config0 :: (nat, nat, nat) config)) =
     Inl (ValueError (CHR 0x22 # ''Config'' @ CHR 0x22 # '' object has no field '' @
        CHR 0x22 # ''default_client'' @ [CHR 0x22])) \<and>
   fst (get_client_for 0 ''gpt-x''
     (snd (set_default_client (7::nat) (config0 :: (nat, nat, nat) config)))) = (None, True) \<and>
   fst (get_client_for 0 ''gpt-x''
     (snd (init None None None None None None (Some (7::nat))
       (config0 :: (nat, nat, nat) config)))) = (None, True)"
  by (simp add: set_default_client_def init_def get_client_for_def config0_def Config_init_def)

subsection \<open>Reset\<close>

text \<open>
  C2. Thread 2 holds the override \<^verbatim>\<open>{m: 22}\<close> and resolves \<open>m\<close> to \<open>(22, False)\<close>. After
  \<^verbatim>\<open>reset\<close> on thread 1, thread 2 has no stack any more: it resolves \<open>m\<close> to the
  fallback, and the \<^verbatim>\<open>finally\<close> clause of its pending \<^verbatim>\<open>with\<close> statement raises
  \<^verbatim>\<open>AttributeError\<close>.
\<close>

theorem reset_drops_other_threads_stacks:
  "fst (get_client_for 2 ''m''
     (model_registry_override_enter 2 [''m'' \<mapsto> (22::nat)]
       (config0 :: (nat, nat, nat) config))) = (Some 22, False) \<and>
   local (model_registry_override_enter 2 [''m'' \<mapsto> (22::nat)]
       (config0 :: (nat, nat, nat) config)) 2 = Some [1] \<and>
   local (reset 1 (model_registry_override_enter 2 [''m'' \<mapsto> (22::nat)]
       (config0 :: (nat, nat, nat) config))) 2 = None \<and>
   fst (get_client_for 2 ''m''
     (reset 1 (model_registry_override_enter 2 [''m'' \<mapsto> (22::nat)]
       (config0 :: (nat, nat, nat) config)))) = (None, True) \<and>
   fst (model_registry_override_exit 2
     (reset 1 (model_registry_override_enter 2 [''m'' \<mapsto> (22::nat)]
       (config0 :: (nat, nat, nat) config)))) = Inl (AttributeError ''stack'')"
  by (simp add: get_client_for_def reset_def model_registry_override_enter_def
      model_registry_override_exit_def config0_def Config_init_def Let_def)

end
